theory Spec2Isabelle
  imports Main
begin

section \<open>Errors and outcomes\<close>

text \<open>
  The error classes of \<open>expressError\<close> that the modelled code throws. A
  \<open>BadRequestError\<close> carries its message, which is either one string or the list of
  validator error stacks. \<open>TypeError\<close> is the JavaScript runtime error of reading a
  property of \<open>undefined\<close>.
\<close>

datatype message = Text string | Stacks "string list"

datatype error =
    BadRequestError message
  | UnauthorizedError
  | NotFoundError string
  | TypeError

text \<open>
  What a middleware does with the request: it calls \<open>next()\<close> or \<open>next(err)\<close>. A
  route handler answers with \<open>res.json(body)\<close> or passes on by calling \<open>next\<close>.
\<close>

datatype next_call = Next | NextErr error

datatype 'a handled = Json 'a | Passed next_call

section \<open>The partial-update helper (helpers/sql.js)\<close>

subsection \<open>Strings of JavaScript\<close>

definition quote :: string where
  "quote = [CHR 0x22]"

definition digit_char :: "nat \<Rightarrow> char" where
  "digit_char d = ''0123456789'' ! d"

text \<open>The decimal rendering of a non-negative integer, as a template literal prints it.\<close>

function string_of_nat :: "nat \<Rightarrow> string" where
  "string_of_nat n =
     (if n < 10 then [digit_char n]
      else string_of_nat (n div 10) @ [digit_char (n mod 10)])"
  by pat_completeness auto
termination
  by (relation "measure (\<lambda>n. n)") auto

declare string_of_nat.simps [simp del]

text \<open>\<open>Array.prototype.join\<close> on an array of strings.\<close>

fun join :: "string \<Rightarrow> string list \<Rightarrow> string" where
  "join sep [] = []"
| "join sep [x] = x"
| "join sep (x # y # ys) = x @ sep @ join sep (y # ys)"

subsection \<open>sqlForPartialUpdate\<close>

text \<open>
  \<open>dataToUpdate\<close> is a JavaScript object: its own enumerable properties in the order in
  which \<open>Object.keys\<close> and \<open>Object.values\<close> enumerate them, as a list of pairs.
  \<open>jsToSql\<close> is the translation table, an object literal with string values, as every
  table of the repository is: \<open>jsToSql k\<close> is its own property \<open>k\<close>, if it has one.
\<close>

type_synonym 'v js_object = "(string \<times> 'v) list"

definition object_keys :: "'v js_object \<Rightarrow> string list" where
  "object_keys obj = map fst obj"

definition object_values :: "'v js_object \<Rightarrow> 'v list" where
  "object_values obj = map snd obj"

text \<open>
  A property read \<open>jsToSql[colName]\<close> that finds no own property goes on to the
  prototype of the object literal, \<open>Object.prototype\<close>. Its properties are functions,
  and the accessor \<open>__proto__\<close> that yields \<open>Object.prototype\<close> itself: all truthy.
  \<open>Object_prototype k\<close> is the text that a template literal prints for the property
  \<open>k\<close> in Node.
\<close>

definition native_function :: "string \<Rightarrow> string" where
  "native_function name = ''function '' @ name @ ''() { [native code] }''"

definition Object_prototype :: "string \<rightharpoonup> string" where
  "Object_prototype =
     map_of
       [(''constructor'', native_function ''Object''),
        (''__defineGetter__'', native_function ''__defineGetter__''),
        (''__defineSetter__'', native_function ''__defineSetter__''),
        (''hasOwnProperty'', native_function ''hasOwnProperty''),
        (''__lookupGetter__'', native_function ''__lookupGetter__''),
        (''__lookupSetter__'', native_function ''__lookupSetter__''),
        (''isPrototypeOf'', native_function ''isPrototypeOf''),
        (''propertyIsEnumerable'', native_function ''propertyIsEnumerable''),
        (''toString'', native_function ''toString''),
        (''valueOf'', native_function ''valueOf''),
        (''toLocaleString'', native_function ''toLocaleString''),
        (''__proto__'', ''[object Object]'')]"

text \<open>
  The expression \<open>jsToSql[colName] || colName\<close>: the operator \<open>||\<close> yields its right
  operand when the left one is falsy. An own entry is falsy when it is the empty string;
  an inherited property is truthy and is printed; a read that finds nothing is
  \<open>undefined\<close>.
\<close>

definition resolve_col :: "(string \<rightharpoonup> string) \<Rightarrow> string \<Rightarrow> string" where
  "resolve_col jsToSql colName =
     (case jsToSql colName of
        Some s \<Rightarrow> if s = [] then colName else s
      | None \<Rightarrow>
          (case Object_prototype colName of
             Some inherited \<Rightarrow> inherited
           | None \<Rightarrow> colName))"

text \<open>The callback of \<open>keys.map\<close>, applied to the pair of an index and a key.\<close>

definition col_fragment :: "(string \<rightharpoonup> string) \<Rightarrow> nat \<times> string \<Rightarrow> string" where
  "col_fragment jsToSql =
     (\<lambda>(idx, colName).
        quote @ resolve_col jsToSql colName @ quote @ ''=$'' @ string_of_nat (idx + 1))"

definition cols :: "(string \<rightharpoonup> string) \<Rightarrow> string list \<Rightarrow> string list" where
  "cols jsToSql keys = map (col_fragment jsToSql) (enumerate 0 keys)"

record 'v sql_update =
  setCols :: string
  vals :: "'v list"

definition sqlForPartialUpdate ::
  "'v js_object \<Rightarrow> (string \<rightharpoonup> string) \<Rightarrow> error + 'v sql_update" where
  "sqlForPartialUpdate dataToUpdate jsToSql =
     (let keys = object_keys dataToUpdate in
      if length keys = 0 then Inl (BadRequestError (Text ''No data''))
      else Inr \<lparr>setCols = join '', '' (cols jsToSql keys),
                vals = object_values dataToUpdate\<rparr>)"

section \<open>The authentication middleware (middleware/auth.js)\<close>

subsection \<open>Requests and response locals\<close>

text \<open>
  Of a request the middleware reads \<open>req.headers\<close> and \<open>req.params\<close>. Either
  object may be \<open>undefined\<close> (\<open>None\<close>): \<open>authenticateJWT\<close> guards the first
  explicitly, and reading a property of the second then throws a \<open>TypeError\<close>. A
  header value is a string of Latin-1 characters, as Node delivers it.
\<close>

record request =
  headers :: "(string \<rightharpoonup> string) option"
  params :: "(string \<rightharpoonup> string) option"

text \<open>
  The token payload that \<open>res.locals.user\<close> holds: it includes the \<open>username\<close>
  and the \<open>isAdmin\<close> field. \<open>res.locals.user\<close> is \<open>None\<close> while nothing was stored.
\<close>

record payload =
  username :: string
  isAdmin :: bool

record 'c locals =
  user :: "'c option"

subsection \<open>authenticateJWT\<close>

text \<open>\<open>authHeader.replace(/^[Bb]earer /, "")\<close>: the first match, anchored at the start.\<close>

definition replace_bearer :: "string \<Rightarrow> string" where
  "replace_bearer authHeader =
     (if take 7 authHeader = ''Bearer '' \<or> take 7 authHeader = ''bearer ''
      then drop 7 authHeader else authHeader)"

text \<open>
  The white space and line terminators of \<open>String.prototype.trim\<close> among the
  characters up to \<open>0xFF\<close>: tab, line feed, vertical tab, form feed, carriage return,
  space and no-break space.
\<close>

definition is_white_space :: "char \<Rightarrow> bool" where
  "is_white_space c =
     (c \<in> set [CHR 0x09, CHR 0x0A, CHR 0x0B, CHR 0x0C, CHR 0x0D, CHR 0x20, CHR 0xA0])"

definition trim :: "string \<Rightarrow> string" where
  "trim s = rev (dropWhile is_white_space (rev (dropWhile is_white_space s)))"

definition extract_token :: "string \<Rightarrow> string" where
  "extract_token authHeader = trim (replace_bearer authHeader)"

text \<open>\<open>req.headers && req.headers.authorization\<close>.\<close>

definition authorization_header :: "request \<Rightarrow> string option" where
  "authorization_header req =
     (case headers req of None \<Rightarrow> None | Some h \<Rightarrow> h ''authorization'')"

text \<open>
  \<open>jwt.verify\<close> and \<open>SECRET_KEY\<close> come from outside the modelled files and are
  parameters: \<open>jwt_verify token key\<close> is \<open>Inr\<close> of the decoded payload, or \<open>Inl\<close> of
  the error it throws. The function returns the locals it leaves behind and the call of
  \<open>next\<close> it makes; the \<open>catch\<close> branch calls \<open>next()\<close> as well.
\<close>

definition authenticateJWT ::
  "(string \<Rightarrow> string \<Rightarrow> 'e + 'c) \<Rightarrow> string \<Rightarrow> request \<Rightarrow> 'c locals
     \<Rightarrow> 'c locals \<times> next_call" where
  "authenticateJWT jwt_verify SECRET_KEY req loc =
     (case authorization_header req of
        None \<Rightarrow> (loc, Next)
      | Some authHeader \<Rightarrow>
          if authHeader = [] then (loc, Next)
          else (case jwt_verify (extract_token authHeader) SECRET_KEY of
                  Inl err \<Rightarrow> (loc, Next)
                | Inr decoded \<Rightarrow> (loc\<lparr>user := Some decoded\<rparr>, Next)))"

subsection \<open>The gates\<close>

text \<open>
  Each gate runs its body in a \<open>try\<close> block and hands whatever was thrown to
  \<open>next\<close>: \<open>catch (err) { return next(err); }\<close>.
\<close>

definition catch_next :: "error + unit \<Rightarrow> next_call" where
  "catch_next r = (case r of Inr _ \<Rightarrow> Next | Inl err \<Rightarrow> NextErr err)"

definition ensureAdmin :: "payload locals \<Rightarrow> next_call" where
  "ensureAdmin loc =
     catch_next
       (case user loc of
          None \<Rightarrow> Inl UnauthorizedError
        | Some u \<Rightarrow> if \<not> isAdmin u then Inl UnauthorizedError else Inr ())"

text \<open>
  The condition \<open>user && (user.isAdmin || user.username === req.params.username)\<close>
  is evaluated from the left: \<open>req.params\<close> is read only for a present user that is
  not an admin, and reading \<open>username\<close> of an undefined \<open>req.params\<close> throws.
\<close>

definition ensureCorrectUserOrAdmin :: "request \<Rightarrow> payload locals \<Rightarrow> next_call" where
  "ensureCorrectUserOrAdmin req loc =
     catch_next
       (case user loc of
          None \<Rightarrow> Inl UnauthorizedError
        | Some u \<Rightarrow>
            if isAdmin u then Inr ()
            else (case params req of
                    None \<Rightarrow> Inl TypeError
                  | Some p \<Rightarrow>
                      if p ''username'' = Some (username u) then Inr ()
                      else Inl UnauthorizedError))"

section \<open>Updating a company (models/company.js, routes/companies.js)\<close>

text \<open>
  The values of a request body: strings, numbers, booleans and \<open>null\<close>. The modelled
  code passes them on without looking at them.
\<close>

datatype jsval = JString string | JNumber int | JBool bool | JNull

definition newline :: string where
  "newline = [CHR 0x0A]"

definition indent :: "nat \<Rightarrow> string" where
  "indent n = replicate n (CHR '' '')"

definition company_jsToSql :: "string \<rightharpoonup> string" where
  "company_jsToSql =
     map_of [(''numEmployees'', ''num_employees''), (''logoUrl'', ''logo_url'')]"

definition company_querySql :: "string \<Rightarrow> string \<Rightarrow> string" where
  "company_querySql setCols' handleVarIdx =
     ''UPDATE companies'' @ newline @
     indent 22 @ ''SET '' @ setCols' @ newline @
     indent 22 @ ''WHERE handle = '' @ handleVarIdx @ newline @
     indent 22 @ ''RETURNING handle,'' @ newline @
     indent 32 @ ''name,'' @ newline @
     indent 32 @ ''description,'' @ newline @
     indent 32 @ ''num_employees AS '' @ quote @ ''numEmployees'' @ quote @ '','' @ newline @
     indent 32 @ ''logo_url AS '' @ quote @ ''logoUrl'' @ quote"

text \<open>
  The database is a parameter: \<open>db_query db text values\<close> is the pair of the rows it
  returns, or the error it throws, and the database afterwards.
\<close>

type_synonym ('db, 'row) db_query =
  "'db \<Rightarrow> string \<Rightarrow> jsval list \<Rightarrow> (error + 'row list) \<times> 'db"

definition Company_update ::
  "('db, 'row) db_query \<Rightarrow> 'db \<Rightarrow> string \<Rightarrow> jsval js_object \<Rightarrow> (error + 'row) \<times> 'db" where
  "Company_update db_query db handle data =
     (case sqlForPartialUpdate data company_jsToSql of
        Inl err \<Rightarrow> (Inl err, db)
      | Inr r \<Rightarrow>
          (let handleVarIdx = ''$'' @ string_of_nat (length (vals r) + 1);
               querySql = company_querySql (setCols r) handleVarIdx;
               (result, db') = db_query db querySql (vals r @ [JString handle])
           in case result of
                Inl err \<Rightarrow> (Inl err, db')
              | Inr rows \<Rightarrow>
                  (case rows of
                     [] \<Rightarrow> (Inl (NotFoundError (''No company: '' @ handle)), db')
                   | company # _ \<Rightarrow> (Inr company, db'))))"

text \<open>
  The handler of \<open>PATCH /:handle\<close>. \<open>validate body\<close> stands for the error stacks of
  \<open>jsonschema.validate(req.body, companyUpdateSchema)\<close>, which is valid when there are
  none; \<open>handle\<close> is \<open>req.params.handle\<close>. Whatever the body of the \<open>try\<close> block
  throws goes to \<open>next\<close>.
\<close>

definition patch_company_handler ::
  "(jsval js_object \<Rightarrow> string list) \<Rightarrow> ('db, 'row) db_query \<Rightarrow> 'db \<Rightarrow> string
     \<Rightarrow> jsval js_object \<Rightarrow> 'row handled \<times> 'db" where
  "patch_company_handler validate db_query db handle body =
     (let errs = validate body in
      if errs \<noteq> [] then (Passed (NextErr (BadRequestError (Stacks errs))), db)
      else (case Company_update db_query db handle body of
              (Inl err, db') \<Rightarrow> (Passed (NextErr err), db')
            | (Inr company, db') \<Rightarrow> (Json company, db')))"

text \<open>
  \<open>router.patch("/:handle", ensureAdmin, handler)\<close>: the handler runs when the gate
  calls \<open>next()\<close>, and is skipped when the gate calls \<open>next(err)\<close>.
\<close>

definition patch_company ::
  "(jsval js_object \<Rightarrow> string list) \<Rightarrow> ('db, 'row) db_query \<Rightarrow> 'db \<Rightarrow> payload locals
     \<Rightarrow> string \<Rightarrow> jsval js_object \<Rightarrow> 'row handled \<times> 'db" where
  "patch_company validate db_query db loc handle body =
     (case ensureAdmin loc of
        Next \<Rightarrow> patch_company_handler validate db_query db handle body
      | NextErr err \<Rightarrow> (Passed (NextErr err), db))"

section \<open>The builder and the predicates as the specification words them\<close>

text \<open>
  The specification resolves a column name by membership of the key in the translation
  table: \<open>nameMap[key]\<close> when the key is present, the key itself when it is absent.
  Fragment \<open>i\<close> carries the 1-based position of its key.
\<close>

definition spec_resolved_name :: "(string \<rightharpoonup> string) \<Rightarrow> string \<Rightarrow> string" where
  "spec_resolved_name nameMap key = (case nameMap key of None \<Rightarrow> key | Some name \<Rightarrow> name)"

definition spec_build :: "'v js_object \<Rightarrow> (string \<rightharpoonup> string) \<Rightarrow> 'v sql_update" where
  "spec_build updates nameMap =
     \<lparr>setCols =
        join '', ''
          (map (\<lambda>i. quote @ spec_resolved_name nameMap (fst (updates ! i)) @ quote @
                     ''=$'' @ string_of_nat (i + 1))
             [0..<length updates]),
      vals = map snd updates\<rparr>"

text \<open>\<open>routeParams[param]\<close>: the entry of the route parameters, if there is one.\<close>

definition route_param :: "request \<Rightarrow> string \<Rightarrow> string option" where
  "route_param req param = (case params req of None \<Rightarrow> None | Some p \<Rightarrow> p param)"

text \<open>Reading a decimal numeral back, to state what \<open>string_of_nat\<close> prints.\<close>

definition digit_value :: "char \<Rightarrow> nat" where
  "digit_value c = of_char c - 48"

definition nat_of_string :: "string \<Rightarrow> nat" where
  "nat_of_string s = foldl (\<lambda>a c. 10 * a + digit_value c) 0 s"

text \<open>
  The fragments of a clause, read back from the string: a clause is a sequence of
  fragments \<open>"name"=$position\<close> separated by \<open>, \<close>, where a name runs up to the next
  double quote and a position is a decimal numeral. \<open>parse_fragment\<close> reads one
  fragment at the head of a string and returns it with the rest of the string;
  \<open>parse_clause\<close> is \<open>None\<close> for a string that is not such a sequence.
\<close>

definition is_digit :: "char \<Rightarrow> bool" where
  "is_digit c = (c \<in> set ''0123456789'')"

definition parse_fragment :: "string \<Rightarrow> ((string \<times> nat) \<times> string) option" where
  "parse_fragment s =
     (case s of
        [] \<Rightarrow> None
      | c # s1 \<Rightarrow>
          if c \<noteq> CHR 0x22 then None
          else
            (let name = takeWhile (\<lambda>x. x \<noteq> CHR 0x22) s1;
                 s2 = dropWhile (\<lambda>x. x \<noteq> CHR 0x22) s1;
                 digits = takeWhile is_digit (drop 3 s2);
                 rest = dropWhile is_digit (drop 3 s2)
             in if take 3 s2 = quote @ ''=$'' \<and> digits \<noteq> []
                then Some ((name, nat_of_string digits), rest)
                else None))"

function parse_fragments :: "string \<Rightarrow> (string \<times> nat) list option" where
  "parse_fragments s =
     (case parse_fragment s of
        None \<Rightarrow> None
      | Some (f, rest) \<Rightarrow>
          if rest = [] then Some [f]
          else if take 2 rest = '', ''
            then (case parse_fragments (drop 2 rest) of
                    None \<Rightarrow> None
                  | Some fs \<Rightarrow> Some (f # fs))
            else None)"
  by pat_completeness auto
termination
proof (relation "measure length")
  show "wf (measure length)"
    by simp
next
  fix s :: string and x2 :: "(string \<times> nat) \<times> string" and f rest
  assume p: "parse_fragment s = Some x2" and x: "(f, rest) = x2"
  show "(drop 2 rest, s) \<in> measure length"
  proof (cases s)
    case Nil
    with p show ?thesis
      by (simp add: parse_fragment_def)
  next
    case (Cons c s1)
    with p x have "rest = dropWhile is_digit (drop 3 (dropWhile (\<lambda>x. x \<noteq> CHR 0x22) s1))"
      by (auto simp: parse_fragment_def Let_def split: if_splits)
    moreover have
      "length (dropWhile is_digit (drop 3 (dropWhile (\<lambda>x. x \<noteq> CHR 0x22) s1)))
        \<le> length (drop 3 (dropWhile (\<lambda>x. x \<noteq> CHR 0x22) s1))"
      by (rule length_dropWhile_le)
    moreover have "length (dropWhile (\<lambda>x. x \<noteq> CHR 0x22) s1) \<le> length s1"
      by (rule length_dropWhile_le)
    ultimately show ?thesis
      using Cons by simp
  qed
qed

declare parse_fragments.simps [simp del]

definition parse_clause :: "string \<Rightarrow> (string \<times> nat) list option" where
  "parse_clause clause = (if clause = [] then Some [] else parse_fragments clause)"

section \<open>Sample inputs\<close>

text \<open>
  A verifier that accepts the one token \<open>tok\<close> under the key \<open>secret\<close>, a
  request with a given \<open>authorization\<close> header and \<open>username\<close> route parameter,
  and a translation table with one entry.
\<close>

definition sample_verify :: "string \<Rightarrow> string \<Rightarrow> string + payload" where
  "sample_verify token key =
     (if token = ''tok'' \<and> key = ''secret''
      then Inr \<lparr>username = ''u1'', isAdmin = False\<rparr>
      else Inl ''invalid token'')"

definition sample_request :: "string option \<Rightarrow> string option \<Rightarrow> request" where
  "sample_request authHeader name =
     \<lparr>headers = Some (\<lambda>k. if k = ''authorization'' then authHeader else None),
      params = Some (\<lambda>k. if k = ''username'' then name else None)\<rparr>"

definition sample_jsToSql :: "string \<rightharpoonup> string" where
  "sample_jsToSql = map_of [(''jsF2'', ''f2'')]"

section \<open>Properties of the partial-update helper\<close>

subsection \<open>Decimal positions\<close>

lemma digit_value_digit_char: "d < 10 \<Longrightarrow> digit_value (digit_char d) = d"
proof -
  assume "d < 10"
  then have "d = 0 \<or> d = 1 \<or> d = 2 \<or> d = 3 \<or> d = 4 \<or>
      d = 5 \<or> d = 6 \<or> d = 7 \<or> d = 8 \<or> d = 9"
    by arith
  then show ?thesis
    by (elim disjE) (simp_all add: digit_value_def digit_char_def)
qed

lemma nat_of_string_snoc:
  "nat_of_string (s @ [c]) = 10 * nat_of_string s + digit_value c"
  by (simp add: nat_of_string_def)

lemma nat_of_string_of_nat: "nat_of_string (string_of_nat n) = n"
proof (induction n rule: string_of_nat.induct)
  case (1 n)
  show ?case
  proof (cases "n < 10")
    case True
    then show ?thesis
      by (simp add: string_of_nat.simps [of n] nat_of_string_def digit_value_digit_char)
  next
    case False
    with "1" have "nat_of_string (string_of_nat (n div 10)) = n div 10"
      by simp
    with False show ?thesis
      by (simp add: string_of_nat.simps [of n] nat_of_string_snoc digit_value_digit_char)
  qed
qed

lemma string_of_nat_digits: "set (string_of_nat n) \<subseteq> set ''0123456789''"
proof (induction n rule: string_of_nat.induct)
  case (1 n)
  have d: "digit_char k \<in> set ''0123456789''" if "k < 10" for k
    unfolding digit_char_def using that by (intro nth_mem) simp
  show ?case
  proof (cases "n < 10")
    case True
    with d [of n] show ?thesis
      by (simp add: string_of_nat.simps [of n])
  next
    case False
    with "1" have "set (string_of_nat (n div 10)) \<subseteq> set ''0123456789''"
      by simp
    moreover have "digit_char (n mod 10) \<in> set ''0123456789''"
      by (rule d) simp
    ultimately show ?thesis
      using False by (simp add: string_of_nat.simps [of n])
  qed
qed

subsection \<open>The two branches of sqlForPartialUpdate\<close>

lemma sqlForPartialUpdate_Nil:
  "sqlForPartialUpdate [] jsToSql = Inl (BadRequestError (Text ''No data''))"
  by (simp add: sqlForPartialUpdate_def object_keys_def)

lemma sqlForPartialUpdate_nonempty:
  "dataToUpdate \<noteq> [] \<Longrightarrow>
   sqlForPartialUpdate dataToUpdate jsToSql =
     Inr \<lparr>setCols = join '', '' (cols jsToSql (map fst dataToUpdate)),
          vals = map snd dataToUpdate\<rparr>"
  by (simp add: sqlForPartialUpdate_def object_keys_def object_values_def)

lemma length_cols: "length (cols jsToSql keys) = length keys"
  by (simp add: cols_def)

lemma cols_nth:
  "i < length keys \<Longrightarrow>
   cols jsToSql keys ! i =
     quote @ resolve_col jsToSql (keys ! i) @ quote @ ''=$'' @ string_of_nat (i + 1)"
  by (simp add: cols_def col_fragment_def nth_enumerate_eq)

lemma join_Cons: "join sep (x # xs) = x @ concat (map (\<lambda>y. sep @ y) xs)"
  by (induction xs arbitrary: x) simp_all

lemma Company_update_Nil:
  "Company_update db_query db handle [] = (Inl (BadRequestError (Text ''No data'')), db)"
  by (simp add: Company_update_def sqlForPartialUpdate_Nil)

subsection \<open>Resolving a column name\<close>

lemma resolve_col_own:
  "jsToSql key = Some name \<Longrightarrow> resolve_col jsToSql key = (if name = [] then key else name)"
  by (simp add: resolve_col_def)

lemma resolve_col_plain:
  "jsToSql key = None \<Longrightarrow> Object_prototype key = None \<Longrightarrow> resolve_col jsToSql key = key"
  by (simp add: resolve_col_def)

lemma resolve_col_inherited:
  "jsToSql key = None \<Longrightarrow> Object_prototype key = Some inherited \<Longrightarrow>
   resolve_col jsToSql key = inherited"
  by (simp add: resolve_col_def)

text \<open>
  A key that the table maps to the empty string is named after itself, and so is its
  fragment; the table without the entry gives the same result when the key is not the
  name of a property of \<open>Object.prototype\<close>.
\<close>

lemma falsy_mapping_falls_back:
  assumes "nameMap key = Some []"
  shows "resolve_col nameMap key = key"
    and "i < length updates \<Longrightarrow> fst (updates ! i) = key \<Longrightarrow>
      cols nameMap (object_keys updates) ! i =
        quote @ key @ quote @ ''=$'' @ string_of_nat (i + 1)"
    and "Object_prototype key = None \<Longrightarrow>
      sqlForPartialUpdate updates nameMap =
        sqlForPartialUpdate updates (nameMap(key := None))"
proof -
  show r: "resolve_col nameMap key = key"
    using assms by (simp add: resolve_col_def)
  show "cols nameMap (object_keys updates) ! i =
      quote @ key @ quote @ ''=$'' @ string_of_nat (i + 1)"
    if "i < length updates" and "fst (updates ! i) = key"
    using that r by (simp add: object_keys_def cols_nth)
  show "sqlForPartialUpdate updates nameMap =
      sqlForPartialUpdate updates (nameMap(key := None))"
    if "Object_prototype key = None"
  proof -
    have "resolve_col (nameMap(key := None)) = resolve_col nameMap"
      using assms that by (intro ext) (simp add: resolve_col_def)
    then show ?thesis
      by (simp add: sqlForPartialUpdate_def Let_def cols_def col_fragment_def)
  qed
qed

subsection \<open>Reading the clause back\<close>

lemma string_of_nat_nonempty: "string_of_nat n \<noteq> []"
  by (simp add: string_of_nat.simps [of n])

lemma string_of_nat_is_digit: "c \<in> set (string_of_nat n) \<Longrightarrow> is_digit c"
  unfolding is_digit_def by (rule subsetD [OF string_of_nat_digits])

lemma parse_fragment_col:
  assumes "CHR 0x22 \<notin> set name"
    and "rest = [] \<or> \<not> is_digit (hd rest)"
  shows "parse_fragment (quote @ name @ quote @ ''=$'' @ string_of_nat m @ rest) =
    Some ((name, m), rest)"
proof -
  let ?q = "CHR 0x22"
  let ?tail = "?q # CHR ''='' # CHR ''$'' # (string_of_nat m @ rest)"
  from assms have n: "\<forall>x \<in> set name. x \<noteq> ?q"
    by auto
  from n have t: "takeWhile (\<lambda>x. x \<noteq> ?q) (name @ ?tail) = name"
    by (simp add: takeWhile_append2)
  from n have d: "dropWhile (\<lambda>x. x \<noteq> ?q) (name @ ?tail) = ?tail"
    by (simp add: dropWhile_append2)
  from assms have r: "takeWhile is_digit rest = []" "dropWhile is_digit rest = rest"
    by (cases rest; simp)+
  have g: "\<forall>c \<in> set (string_of_nat m). is_digit c"
    by (simp add: string_of_nat_is_digit)
  from g r have td: "takeWhile is_digit (string_of_nat m @ rest) = string_of_nat m"
    by (simp add: takeWhile_append2)
  from g r have dd: "dropWhile is_digit (string_of_nat m @ rest) = rest"
    by (simp add: dropWhile_append2)
  have "parse_fragment (?q # name @ ?tail) = Some ((name, m), rest)"
    unfolding parse_fragment_def
    by (simp add: t d td dd Let_def quote_def string_of_nat_nonempty nat_of_string_of_nat
        del: takeWhile_append2 dropWhile_append2)
  then show ?thesis
    by (simp add: quote_def)
qed

lemma col_fragment_not_Nil: "col_fragment jsToSql p \<noteq> []"
  by (cases p) (simp add: col_fragment_def quote_def)

lemma parse_fragments_cols:
  assumes "keys \<noteq> []"
    and "\<forall>key \<in> set keys. CHR 0x22 \<notin> set (resolve_col jsToSql key)"
  shows "parse_fragments (join '', '' (map (col_fragment jsToSql) (enumerate n keys))) =
    Some (map (\<lambda>(idx, colName). (resolve_col jsToSql colName, idx + 1)) (enumerate n keys))"
  using assms
proof (induction keys arbitrary: n)
  case Nil
  then show ?case
    by simp
next
  case (Cons k ks)
  from Cons.prems have q: "CHR 0x22 \<notin> set (resolve_col jsToSql k)"
    by simp
  show ?case
  proof (cases ks)
    case Nil
    have "parse_fragment
        (quote @ resolve_col jsToSql k @ quote @ ''=$'' @ string_of_nat (n + 1) @ []) =
        Some ((resolve_col jsToSql k, n + 1), [])"
      using q by (intro parse_fragment_col) simp_all
    then show ?thesis
      using Nil by (subst parse_fragments.simps) (simp add: col_fragment_def)
  next
    case (Cons k' ks')
    let ?more = "join '', '' (map (col_fragment jsToSql) (enumerate (Suc n) ks))"
    have ih: "parse_fragments ?more =
        Some (map (\<lambda>(idx, colName). (resolve_col jsToSql colName, idx + 1))
          (enumerate (Suc n) ks))"
      using Cons Cons.prems by (intro Cons.IH) simp_all
    have "parse_fragment
        (quote @ resolve_col jsToSql k @ quote @ ''=$'' @ string_of_nat (n + 1) @
          ('', '' @ ?more)) =
        Some ((resolve_col jsToSql k, n + 1), '', '' @ ?more)"
      using q by (intro parse_fragment_col) (simp_all add: is_digit_def)
    moreover have "join '', '' (map (col_fragment jsToSql) (enumerate n (k # ks))) =
        quote @ resolve_col jsToSql k @ quote @ ''=$'' @ string_of_nat (n + 1) @
          ('', '' @ ?more)"
      using Cons by (simp add: col_fragment_def)
    ultimately show ?thesis
      using ih by (subst parse_fragments.simps) simp
  qed
qed

lemma join_cols_not_Nil: "keys \<noteq> [] \<Longrightarrow> join sep (cols jsToSql keys) \<noteq> []"
  by (cases keys) (simp_all add: cols_def join_Cons col_fragment_not_Nil)

lemma parse_clause_cols:
  assumes "keys \<noteq> []"
    and "\<forall>key \<in> set keys. CHR 0x22 \<notin> set (resolve_col jsToSql key)"
  shows "parse_clause (join '', '' (cols jsToSql keys)) =
    Some (map (\<lambda>(idx, colName). (resolve_col jsToSql colName, idx + 1)) (enumerate 0 keys))"
  using assms parse_fragments_cols [of keys jsToSql 0]
  by (simp add: parse_clause_def join_cols_not_Nil) (simp add: cols_def)

subsection \<open>The clause and the values\<close>

text \<open>
  Claim C1, as amended. For every non-empty update object and every translation table
  such that no key without an entry of its own in the table is the name of a property of
  \<open>Object.prototype\<close>, \<open>sqlForPartialUpdate\<close> returns the clause made of one
  fragment \<open>"name"=$i\<close> per key, in the order of the keys and separated by \<open>, \<close>,
  where \<open>i\<close> is the 1-based position of the key, and the name is the table's entry for
  the key when there is one and it is not the empty string, and the key itself
  otherwise; the values are those of the update object in the same order.
\<close>

theorem build_clause_and_values:
  assumes "updates \<noteq> []"
    and "\<forall>key \<in> set (object_keys updates).
       nameMap key = None \<longrightarrow> Object_prototype key = None"
  shows "\<exists>fragments.
     fragments =
       map (\<lambda>i. quote @
              (case nameMap (fst (updates ! i)) of
                 None \<Rightarrow> fst (updates ! i)
               | Some name \<Rightarrow> if name = [] then fst (updates ! i) else name) @
              quote @ ''=$'' @ string_of_nat (i + 1))
         [0..<length updates] \<and>
     sqlForPartialUpdate updates nameMap =
       Inr \<lparr>setCols = hd fragments @ concat (map (\<lambda>f. '', '' @ f) (tl fragments)),
            vals = map snd updates\<rparr>"
proof -
  have r: "resolve_col nameMap (fst (updates ! i)) =
      (case nameMap (fst (updates ! i)) of
         None \<Rightarrow> fst (updates ! i)
       | Some name \<Rightarrow> if name = [] then fst (updates ! i) else name)"
    if "i < length updates" for i
  proof (cases "nameMap (fst (updates ! i))")
    case None
    from that have "fst (updates ! i) \<in> set (object_keys updates)"
      by (simp add: object_keys_def)
    with assms None have "Object_prototype (fst (updates ! i)) = None"
      by blast
    with None show ?thesis
      by (simp add: resolve_col_plain)
  next
    case (Some name)
    then show ?thesis
      by (simp add: resolve_col_own)
  qed
  have c: "cols nameMap (map fst updates) =
      map (\<lambda>i. quote @
             (case nameMap (fst (updates ! i)) of
                None \<Rightarrow> fst (updates ! i)
              | Some name \<Rightarrow> if name = [] then fst (updates ! i) else name) @
             quote @ ''=$'' @ string_of_nat (i + 1))
        [0..<length updates]"
    by (rule nth_equalityI) (simp_all add: length_cols cols_nth r split: option.splits)
  from assms have "length (cols nameMap (map fst updates)) \<noteq> 0"
    by (simp add: length_cols)
  then have "cols nameMap (map fst updates) \<noteq> []"
    by simp
  then have "join '', '' (cols nameMap (map fst updates)) =
      hd (cols nameMap (map fst updates)) @
      concat (map (\<lambda>f. '', '' @ f) (tl (cols nameMap (map fst updates))))"
    by (cases "cols nameMap (map fst updates)") (simp_all add: join_Cons)
  with assms c show ?thesis
    by (simp add: sqlForPartialUpdate_nonempty)
qed

theorem build_clause_and_values_witness:
  "[(''f1'', ''v1''), (''jsF2'', ''v2'')] \<noteq> [] \<and>
   sample_jsToSql ''f1'' = None \<and> Object_prototype ''f1'' = None \<and>
   sample_jsToSql ''jsF2'' = Some ''f2'' \<and>
   sqlForPartialUpdate [(''f1'', ''v1''), (''jsF2'', ''v2'')] sample_jsToSql =
     Inr \<lparr>setCols = quote @ ''f1'' @ quote @ ''=$1, '' @ quote @ ''f2'' @ quote @ ''=$2'',
          vals = [''v1'', ''v2'']\<rparr>"
proof -
  let ?u = "[(''f1'', ''v1''), (''jsF2'', ''v2'')]"
  have ne: "?u \<noteq> []"
    by simp
  have p: "Object_prototype ''f1'' = None"
    by (simp add: Object_prototype_def)
  have m: "sample_jsToSql ''f1'' = None" "sample_jsToSql ''jsF2'' = Some ''f2''"
    by (simp_all add: sample_jsToSql_def)
  have h: "\<forall>key \<in> set (object_keys ?u).
      sample_jsToSql key = None \<longrightarrow> Object_prototype key = None"
    using p m by (simp add: object_keys_def)
  from build_clause_and_values [OF ne h] p m show ?thesis
    by (simp add: upt_rec string_of_nat.simps digit_char_def)
qed

text \<open>
  Claim C1, as stated, resolves the name by membership of the key in the table. It fails
  for a key that the table maps to the empty string: the code names the column after the
  key, where the stated rule gives the empty name.
\<close>

theorem build_membership_counterexample:
  "sqlForPartialUpdate [(''f1'', ''v1'')] (map_of [(''f1'', [])]) =
     Inr \<lparr>setCols = quote @ ''f1'' @ quote @ ''=$1'', vals = [''v1'']\<rparr> \<and>
   sqlForPartialUpdate [(''f1'', ''v1'')] (map_of [(''f1'', [])]) \<noteq>
     Inr (spec_build [(''f1'', ''v1'')] (map_of [(''f1'', [])]))"
  by (simp add: sqlForPartialUpdate_def object_keys_def object_values_def cols_def
      col_fragment_def resolve_col_def spec_build_def spec_resolved_name_def quote_def
      string_of_nat.simps digit_char_def)

text \<open>
  Claim C2, as amended. For every non-empty update object and every translation table
  such that no resolved column name contains a double quote, the clause reads back as a
  sequence of fragments \<open>"name"=$i\<close>; there are as many fragments as values and as
  keys; and fragment \<open>i\<close> carries the name resolved from the key of the \<open>i\<close>-th entry
  of the update object and its 1-based position, where value \<open>i\<close> is the value of that
  same entry.
\<close>

theorem fragment_value_count:
  assumes "updates \<noteq> []"
    and "\<forall>key \<in> set (object_keys updates). CHR 0x22 \<notin> set (resolve_col nameMap key)"
  shows "\<exists>r fragments.
     sqlForPartialUpdate updates nameMap = Inr r \<and>
     parse_clause (setCols r) = Some fragments \<and>
     length fragments = length (vals r) \<and>
     length (vals r) = length (object_keys updates) \<and>
     (\<forall>i < length (object_keys updates).
        object_keys updates ! i = fst (updates ! i) \<and>
        fragments ! i = (resolve_col nameMap (fst (updates ! i)), i + 1) \<and>
        vals r ! i = snd (updates ! i))"
proof -
  let ?fragments =
    "map (\<lambda>(idx, colName). (resolve_col nameMap colName, idx + 1))
       (enumerate 0 (object_keys updates))"
  from assms have k: "object_keys updates \<noteq> []"
    by (simp add: object_keys_def)
  from k assms have p: "parse_clause (join '', '' (cols nameMap (object_keys updates))) =
      Some ?fragments"
    by (intro parse_clause_cols)
  have n: "?fragments ! i = (resolve_col nameMap (fst (updates ! i)), i + 1)"
    if "i < length updates" for i
    using that by (simp add: object_keys_def nth_enumerate_eq)
  from assms p n show ?thesis
    by (simp add: sqlForPartialUpdate_nonempty object_keys_def)
qed

theorem fragment_value_count_witness:
  "[(''f1'', ''v1''), (''jsF2'', ''v2'')] \<noteq> [] \<and>
   CHR 0x22 \<notin> set (resolve_col sample_jsToSql ''f1'') \<and>
   CHR 0x22 \<notin> set (resolve_col sample_jsToSql ''jsF2'') \<and>
   (\<exists>r fragments.
      sqlForPartialUpdate [(''f1'', ''v1''), (''jsF2'', ''v2'')] sample_jsToSql = Inr r \<and>
      setCols r = quote @ ''f1'' @ quote @ ''=$1, '' @ quote @ ''f2'' @ quote @ ''=$2'' \<and>
      parse_clause (setCols r) = Some fragments \<and>
      fragments = [(''f1'', 1), (''f2'', 2)] \<and>
      vals r = [''v1'', ''v2''])"
proof -
  let ?u = "[(''f1'', ''v1''), (''jsF2'', ''v2'')]"
  have ne: "?u \<noteq> []"
    by simp
  have r1: "resolve_col sample_jsToSql ''f1'' = ''f1''"
    and r2: "resolve_col sample_jsToSql ''jsF2'' = ''f2''"
    by (simp_all add: resolve_col_def sample_jsToSql_def Object_prototype_def)
  have q: "\<forall>key \<in> set (object_keys ?u). CHR 0x22 \<notin> set (resolve_col sample_jsToSql key)"
    by (simp add: object_keys_def r1 r2)
  from fragment_value_count [OF ne q]
  obtain r fragments where r: "sqlForPartialUpdate ?u sample_jsToSql = Inr r"
    and p: "parse_clause (setCols r) = Some fragments"
    and len: "length fragments = length (vals r)" "length (vals r) = length (object_keys ?u)"
    and nth: "\<forall>i < length (object_keys ?u).
        object_keys ?u ! i = fst (?u ! i) \<and>
        fragments ! i = (resolve_col sample_jsToSql (fst (?u ! i)), i + 1) \<and>
        vals r ! i = snd (?u ! i)"
    by blast
  from len have l: "length fragments = 2" "length (vals r) = 2"
    by (simp_all add: object_keys_def)
  from nth have "fragments ! 0 = (''f1'', 1) \<and> vals r ! 0 = ''v1''"
    by (simp add: object_keys_def r1)
  moreover from nth have "fragments ! 1 = (''f2'', 2) \<and> vals r ! 1 = ''v2''"
    by (simp add: object_keys_def r2)
  ultimately have f: "fragments = [(''f1'', 1), (''f2'', 2)]" and v: "vals r = [''v1'', ''v2'']"
    using l by (auto simp: list_eq_iff_nth_eq less_Suc_eq numeral_2_eq_2)
  from r have s: "setCols r = quote @ ''f1'' @ quote @ ''=$1, '' @ quote @ ''f2'' @ quote @ ''=$2''"
    by (auto simp: sqlForPartialUpdate_nonempty cols_def col_fragment_def r1 r2
        string_of_nat.simps digit_char_def)
  from r p f v s r1 r2 show ?thesis
    by (simp add: quote_def)
qed

text \<open>
  Claim C2, as stated, holds for every update object. It fails for a key that contains
  a double quote: the one key \<open>a"=$1, "b\<close> with its one value gives a clause that
  reads back as the two fragments \<open>"a"=$1\<close> and \<open>"b"=$1\<close>.
\<close>

theorem fragment_count_counterexample:
  "sqlForPartialUpdate [(''a'' @ quote @ ''=$1, '' @ quote @ ''b'', ''v1'')] (map_of []) =
     Inr \<lparr>setCols = quote @ ''a'' @ quote @ ''=$1, '' @ quote @ ''b'' @ quote @ ''=$1'',
          vals = [''v1'']\<rparr> \<and>
   parse_clause (quote @ ''a'' @ quote @ ''=$1, '' @ quote @ ''b'' @ quote @ ''=$1'') =
     Some [(''a'', 1), (''b'', 1)] \<and>
   length [(''a'', 1 :: nat), (''b'', 1)] \<noteq> length [''v1'']"
proof -
  have "sqlForPartialUpdate [(''a'' @ quote @ ''=$1, '' @ quote @ ''b'', ''v1'')] (map_of []) =
     Inr \<lparr>setCols = quote @ ''a'' @ quote @ ''=$1, '' @ quote @ ''b'' @ quote @ ''=$1'',
          vals = [''v1'']\<rparr>"
    by (simp add: sqlForPartialUpdate_def object_keys_def object_values_def cols_def
        col_fragment_def resolve_col_def Object_prototype_def native_function_def quote_def
        string_of_nat.simps digit_char_def)
  moreover have "parse_clause
      (quote @ ''a'' @ quote @ ''=$1, '' @ quote @ ''b'' @ quote @ ''=$1'') =
      Some [(''a'', 1), (''b'', 1)]"
    by code_simp
  ultimately show ?thesis
    by simp
qed

text \<open>
  Claim C6. The clause depends on the keys and on the translation table only: two
  non-empty update objects with the same keys in the same order, whatever their values
  and the type of their values, get the same clause. The values come out as they went
  in, in order.
\<close>

theorem clause_independent_of_values:
  fixes updates1 :: "'a js_object" and updates2 :: "'b js_object"
  assumes "updates1 \<noteq> []" and "object_keys updates1 = object_keys updates2"
  shows "\<exists>r1 r2. sqlForPartialUpdate updates1 nameMap = Inr r1 \<and>
     sqlForPartialUpdate updates2 nameMap = Inr r2 \<and>
     setCols r1 = setCols r2 \<and>
     vals r1 = map snd updates1 \<and> vals r2 = map snd updates2"
proof -
  from assms have "updates2 \<noteq> []"
    by (auto simp: object_keys_def)
  with assms show ?thesis
    by (simp add: sqlForPartialUpdate_nonempty object_keys_def)
qed

theorem clause_independent_of_values_witness:
  "[(''f1'', ''v1''), (''jsF2'', ''v2'')] \<noteq> [] \<and>
   object_keys [(''f1'', ''v1''), (''jsF2'', ''v2'')] =
     object_keys [(''f1'', JNumber 7), (''jsF2'', JNull)] \<and>
   (\<exists>r1 r2.
      sqlForPartialUpdate [(''f1'', ''v1''), (''jsF2'', ''v2'')]
        (map_of [(''jsF2'', ''f2'')]) = Inr r1 \<and>
      sqlForPartialUpdate [(''f1'', JNumber 7), (''jsF2'', JNull)]
        (map_of [(''jsF2'', ''f2'')]) = Inr r2 \<and>
      setCols r1 = setCols r2 \<and> vals r1 = [''v1'', ''v2''] \<and> vals r2 = [JNumber 7, JNull])"
  using clause_independent_of_values
    [of "[(''f1'', ''v1''), (''jsF2'', ''v2'')]" "[(''f1'', JNumber 7), (''jsF2'', JNull)]"
        "map_of [(''jsF2'', ''f2'')]"]
  by (simp add: object_keys_def)

text \<open>
  Claim C9 asks that a key mapped to the empty string is named exactly as an absent key
  is. The code does not do so for the key \<open>constructor\<close>: mapped to the empty
  string, the column is named after the key; absent from the table, the property read
  finds the constructor that the table inherits, and the column is named after the text
  of that function.
\<close>

theorem inherited_name_not_as_absent:
  "sqlForPartialUpdate [(''constructor'', ''v1'')] (map_of [(''constructor'', [])]) =
     Inr \<lparr>setCols = quote @ ''constructor'' @ quote @ ''=$1'', vals = [''v1'']\<rparr> \<and>
   sqlForPartialUpdate [(''constructor'', ''v1'')] (map_of []) =
     Inr \<lparr>setCols = quote @ ''function Object() { [native code] }'' @ quote @ ''=$1'',
          vals = [''v1'']\<rparr>"
  by (simp add: sqlForPartialUpdate_def object_keys_def object_values_def cols_def
      col_fragment_def resolve_col_def Object_prototype_def native_function_def quote_def
      string_of_nat.simps digit_char_def)

subsection \<open>The empty update\<close>

text \<open>
  Claim C3. For every translation table, \<open>sqlForPartialUpdate\<close> applied to the empty
  update object fails with the \<open>BadRequestError\<close> of message \<open>No data\<close> and returns
  no clause and no values. \<open>Company.update\<close> passes the error on without touching the
  database, and the route handler hands the same error to \<open>next\<close>.
\<close>

theorem empty_update_rejected:
  "sqlForPartialUpdate ([] :: 'v js_object) nameMap =
     Inl (BadRequestError (Text ''No data'')) \<and>
   (\<forall>r. sqlForPartialUpdate ([] :: 'v js_object) nameMap \<noteq> Inr r) \<and>
   Company_update db_query db handle [] = (Inl (BadRequestError (Text ''No data'')), db) \<and>
   (validate [] = [] \<longrightarrow>
      patch_company_handler validate db_query db handle [] =
        (Passed (NextErr (BadRequestError (Text ''No data''))), db))"
  by (simp add: sqlForPartialUpdate_Nil Company_update_Nil patch_company_handler_def)

theorem empty_update_rejected_witness:
  "(\<lambda>body. []) ([] :: jsval js_object) = ([] :: string list) \<and>
   patch_company_handler (\<lambda>body. []) (\<lambda>db text values. (Inr [()], Suc db)) (0::nat) ''c1'' [] =
     (Passed (NextErr (BadRequestError (Text ''No data''))), 0)"
  using empty_update_rejected
    [where ?'v = jsval, of Map.empty "\<lambda>db text values. (Inr [()], Suc db)" "0::nat" "''c1''"
      "\<lambda>body. []"]
  by simp

section \<open>Properties of the authentication middleware\<close>

subsection \<open>The gates by cases\<close>

lemma ensureAdmin_cases:
  "ensureAdmin loc =
     (case user loc of
        None \<Rightarrow> NextErr UnauthorizedError
      | Some u \<Rightarrow> if isAdmin u then Next else NextErr UnauthorizedError)"
  by (simp add: ensureAdmin_def catch_next_def split: option.splits)

lemma ensureCorrectUserOrAdmin_absent:
  "user loc = None \<Longrightarrow> ensureCorrectUserOrAdmin req loc = NextErr UnauthorizedError"
  by (simp add: ensureCorrectUserOrAdmin_def catch_next_def)

lemma ensureCorrectUserOrAdmin_present:
  "user loc = Some u \<Longrightarrow>
   ensureCorrectUserOrAdmin req loc =
     (if isAdmin u then Next
      else case params req of
             None \<Rightarrow> NextErr TypeError
           | Some p \<Rightarrow>
               if p ''username'' = Some (username u) then Next else NextErr UnauthorizedError)"
  by (simp add: ensureCorrectUserOrAdmin_def catch_next_def split: option.splits)

text \<open>
  The read of \<open>req.params\<close> is observable: with a present user that is not an admin,
  an undefined \<open>req.params\<close> makes the gate fail with the \<open>TypeError\<close>.
\<close>

lemma ensureCorrectUserOrAdmin_params_undefined:
  "user loc = Some u \<Longrightarrow> \<not> isAdmin u \<Longrightarrow> params req = None \<Longrightarrow>
   ensureCorrectUserOrAdmin req loc = NextErr TypeError"
  by (simp add: ensureCorrectUserOrAdmin_present)

text \<open>
  Claim C4. \<open>ensureCorrectUserOrAdmin\<close> lets the request proceed exactly when the
  identity is present and is an admin or has the \<open>username\<close> of the route parameters:
  so it does for a matching user that is not an admin, and for an admin whatever the
  route says, and it does not when the identity is absent.
\<close>

theorem self_or_admin_gate:
  "(ensureCorrectUserOrAdmin req loc = Next \<longleftrightarrow>
      (\<exists>u. user loc = Some u \<and>
           (isAdmin u \<or> route_param req ''username'' = Some (username u)))) \<and>
   (user loc = Some u \<and> \<not> isAdmin u \<and> route_param req ''username'' = Some (username u) \<longrightarrow>
      ensureCorrectUserOrAdmin req loc = Next) \<and>
   (user loc = Some u \<and> isAdmin u \<longrightarrow> ensureCorrectUserOrAdmin req loc = Next) \<and>
   (user loc = None \<longrightarrow> ensureCorrectUserOrAdmin req loc \<noteq> Next)"
proof (cases "user loc")
  case None
  then show ?thesis
    by (simp add: ensureCorrectUserOrAdmin_absent)
next
  case (Some v)
  then show ?thesis
    by (auto simp: ensureCorrectUserOrAdmin_present route_param_def split: option.splits)
qed

theorem self_or_admin_gate_witness:
  "ensureCorrectUserOrAdmin (sample_request None (Some ''u1''))
     \<lparr>user = Some \<lparr>username = ''u1'', isAdmin = False\<rparr>\<rparr> = Next \<and>
   ensureCorrectUserOrAdmin (sample_request None (Some ''u1''))
     \<lparr>user = Some \<lparr>username = ''admin'', isAdmin = True\<rparr>\<rparr> = Next \<and>
   ensureCorrectUserOrAdmin (sample_request None (Some ''u1'')) \<lparr>user = None\<rparr> \<noteq> Next \<and>
   ensureCorrectUserOrAdmin (sample_request None (Some ''u1''))
     \<lparr>user = Some \<lparr>username = ''u2'', isAdmin = False\<rparr>\<rparr> \<noteq> Next"
  using
    self_or_admin_gate [of "sample_request None (Some ''u1'')"
      "\<lparr>user = Some \<lparr>username = ''u1'', isAdmin = False\<rparr>\<rparr>"
      "\<lparr>username = ''u1'', isAdmin = False\<rparr>"]
    self_or_admin_gate [of "sample_request None (Some ''u1'')"
      "\<lparr>user = Some \<lparr>username = ''admin'', isAdmin = True\<rparr>\<rparr>"
      "\<lparr>username = ''admin'', isAdmin = True\<rparr>"]
    self_or_admin_gate [of "sample_request None (Some ''u1'')" "\<lparr>user = None\<rparr>"
      "\<lparr>username = ''u1'', isAdmin = False\<rparr>"]
    self_or_admin_gate [of "sample_request None (Some ''u1'')"
      "\<lparr>user = Some \<lparr>username = ''u2'', isAdmin = False\<rparr>\<rparr>"
      "\<lparr>username = ''u2'', isAdmin = False\<rparr>"]
  by (simp add: route_param_def sample_request_def)

text \<open>
  Claim C7. \<open>ensureAdmin\<close> hands the \<open>UnauthorizedError\<close> to \<open>next\<close> exactly when
  it is not the case that the identity is present and an admin; for a present admin it
  calls \<open>next()\<close>; it raises no other error; and the route it guards then ends with
  that same error, the handler not run and the database as it was.
\<close>

theorem admin_gate:
  "(ensureAdmin loc = NextErr UnauthorizedError \<longleftrightarrow>
      \<not> (\<exists>u. user loc = Some u \<and> isAdmin u)) \<and>
   ((\<exists>u. user loc = Some u \<and> isAdmin u) \<longrightarrow> ensureAdmin loc = Next) \<and>
   (\<forall>err. ensureAdmin loc = NextErr err \<longrightarrow> err = UnauthorizedError) \<and>
   (ensureAdmin loc \<noteq> Next \<longrightarrow>
      patch_company validate db_query db loc handle body =
        (Passed (NextErr UnauthorizedError), db))"
  by (cases "user loc") (auto simp: ensureAdmin_cases patch_company_def)

theorem admin_gate_witness:
  "ensureAdmin \<lparr>user = Some \<lparr>username = ''admin'', isAdmin = True\<rparr>\<rparr> = Next \<and>
   ensureAdmin \<lparr>user = Some \<lparr>username = ''u1'', isAdmin = False\<rparr>\<rparr> =
     NextErr UnauthorizedError \<and>
   ensureAdmin \<lparr>user = None\<rparr> = NextErr UnauthorizedError \<and>
   patch_company (\<lambda>body. []) (\<lambda>db text values. (Inr [()], Suc db)) (0::nat)
     \<lparr>user = Some \<lparr>username = ''u1'', isAdmin = False\<rparr>\<rparr> ''c1'' [(''name'', JString ''n'')] =
     (Passed (NextErr UnauthorizedError), 0)"
  using
    admin_gate [of "\<lparr>user = Some \<lparr>username = ''admin'', isAdmin = True\<rparr>\<rparr>"
      "\<lambda>body. []" "\<lambda>db text values. (Inr [()], Suc db)" "0::nat" "''c1''"
      "[(''name'', JString ''n'')]"]
    admin_gate [of "\<lparr>user = Some \<lparr>username = ''u1'', isAdmin = False\<rparr>\<rparr>"
      "\<lambda>body. []" "\<lambda>db text values. (Inr [()], Suc db)" "0::nat" "''c1''"
      "[(''name'', JString ''n'')]"]
    admin_gate [of "\<lparr>user = None\<rparr>"
      "\<lambda>body. []" "\<lambda>db text values. (Inr [()], Suc db)" "0::nat" "''c1''"
      "[(''name'', JString ''n'')]"]
  by simp

text \<open>
  Claim C8. With the identity absent, \<open>ensureCorrectUserOrAdmin\<close> answers with the
  \<open>UnauthorizedError\<close> for every request: also for route parameters without a
  \<open>username\<close>, and for a request whose route parameters are undefined, where a read
  of them would have thrown. The route parameters are not read to decide this case.
\<close>

theorem absent_identity_short_circuits:
  assumes "user loc = None"
  shows "ensureCorrectUserOrAdmin req loc = NextErr UnauthorizedError \<and>
     ensureCorrectUserOrAdmin (req\<lparr>params := None\<rparr>) loc = NextErr UnauthorizedError \<and>
     ensureCorrectUserOrAdmin (req\<lparr>params := Some (p(''username'' := None))\<rparr>) loc =
       NextErr UnauthorizedError"
  using assms by (simp add: ensureCorrectUserOrAdmin_absent)

theorem absent_identity_short_circuits_witness:
  "user (\<lparr>user = None\<rparr> :: payload locals) = None \<and>
   ensureCorrectUserOrAdmin \<lparr>headers = None, params = None\<rparr> \<lparr>user = None\<rparr> =
     NextErr UnauthorizedError \<and>
   ensureCorrectUserOrAdmin \<lparr>headers = None, params = Some Map.empty\<rparr> \<lparr>user = None\<rparr> =
     NextErr UnauthorizedError"
  using
    absent_identity_short_circuits [of "\<lparr>user = None\<rparr>" "\<lparr>headers = None, params = None\<rparr>"]
    absent_identity_short_circuits
      [of "\<lparr>user = None\<rparr>" "\<lparr>headers = None, params = Some Map.empty\<rparr>"]
  by simp

subsection \<open>Identity resolution\<close>

text \<open>
  Claim C5. \<open>authenticateJWT\<close> always calls \<open>next()\<close>, never \<open>next(err)\<close>. When
  there is no authorization header, or it is empty, or the verification of its token
  throws, the locals stay as they were, so an empty identity stays empty. When the
  verification succeeds, \<open>res.locals.user\<close> is the decoded payload.
\<close>

theorem identity_resolution_never_fails:
  "snd (authenticateJWT jwt_verify SECRET_KEY req loc) = Next \<and>
   (authorization_header req = None \<or> authorization_header req = Some [] \<or>
    (\<exists>authHeader err.
       authorization_header req = Some authHeader \<and>
       jwt_verify (extract_token authHeader) SECRET_KEY = Inl err) \<longrightarrow>
      authenticateJWT jwt_verify SECRET_KEY req loc = (loc, Next) \<and>
      (user loc = None \<longrightarrow>
         user (fst (authenticateJWT jwt_verify SECRET_KEY req loc)) = None)) \<and>
   (\<forall>authHeader decoded.
      authorization_header req = Some authHeader \<and> authHeader \<noteq> [] \<and>
      jwt_verify (extract_token authHeader) SECRET_KEY = Inr decoded \<longrightarrow>
      authenticateJWT jwt_verify SECRET_KEY req loc = (loc\<lparr>user := Some decoded\<rparr>, Next) \<and>
      user (fst (authenticateJWT jwt_verify SECRET_KEY req loc)) = Some decoded)"
  by (auto simp: authenticateJWT_def split: option.splits sum.splits)

theorem identity_resolution_never_fails_witness:
  "authenticateJWT sample_verify ''secret'' (sample_request None None) \<lparr>user = None\<rparr> =
     (\<lparr>user = None\<rparr>, Next) \<and>
   authenticateJWT sample_verify ''secret'' (sample_request (Some ''Bearer bad'') None)
     \<lparr>user = None\<rparr> = (\<lparr>user = None\<rparr>, Next) \<and>
   authenticateJWT sample_verify ''secret'' (sample_request (Some ''Bearer tok'') None)
     \<lparr>user = None\<rparr> = (\<lparr>user = Some \<lparr>username = ''u1'', isAdmin = False\<rparr>\<rparr>, Next)"
  using
    identity_resolution_never_fails [of sample_verify "''secret''" "sample_request None None"
      "\<lparr>user = None\<rparr>"]
    identity_resolution_never_fails [of sample_verify "''secret''"
      "sample_request (Some ''Bearer bad'') None" "\<lparr>user = None\<rparr>"]
    identity_resolution_never_fails [of sample_verify "''secret''"
      "sample_request (Some ''Bearer tok'') None" "\<lparr>user = None\<rparr>"]
  by (simp add: authorization_header_def sample_request_def sample_verify_def extract_token_def
      replace_bearer_def trim_def is_white_space_def)

subsection \<open>The token of an authorization header\<close>

lemma trim_decomp:
  "\<exists>pre post. s = pre @ trim s @ post \<and>
     (\<forall>c \<in> set pre. is_white_space c) \<and> (\<forall>c \<in> set post. is_white_space c)"
proof -
  define d where "d = dropWhile is_white_space s"
  define e where "e = dropWhile is_white_space (rev d)"
  have t: "trim s = rev e"
    by (simp add: trim_def d_def e_def)
  have 1: "s = takeWhile is_white_space s @ d"
    by (simp add: d_def)
  have "rev d = takeWhile is_white_space (rev d) @ e"
    by (simp add: e_def)
  then have "rev (rev d) = rev (takeWhile is_white_space (rev d) @ e)"
    by (rule arg_cong)
  with t have 2: "d = trim s @ rev (takeWhile is_white_space (rev d))"
    by simp
  have 3: "\<forall>c \<in> set (takeWhile is_white_space s). is_white_space c"
    by (auto dest: set_takeWhileD)
  have 4: "\<forall>c \<in> set (rev (takeWhile is_white_space (rev d))). is_white_space c"
    by (auto dest: set_takeWhileD)
  from 1 2 have "s = takeWhile is_white_space s @ trim s @ rev (takeWhile is_white_space (rev d))"
    by simp
  with 3 4 show ?thesis
    by blast
qed

lemma trim_ends:
  assumes "trim s \<noteq> []"
  shows "\<not> is_white_space (hd (trim s)) \<and> \<not> is_white_space (last (trim s))"
proof -
  define d where "d = dropWhile is_white_space s"
  define e where "e = dropWhile is_white_space (rev d)"
  have t: "trim s = rev e"
    by (simp add: trim_def d_def e_def)
  with assms have ne: "e \<noteq> []"
    by simp
  then have "\<not> is_white_space (hd e)"
    unfolding e_def by (rule hd_dropWhile)
  with ne t have l: "\<not> is_white_space (last (trim s))"
    by (simp add: last_rev)
  have "rev d = takeWhile is_white_space (rev d) @ e"
    by (simp add: e_def)
  then have "rev (rev d) = rev (takeWhile is_white_space (rev d) @ e)"
    by (rule arg_cong)
  then have d: "d = rev e @ rev (takeWhile is_white_space (rev d))"
    by simp
  with ne have "d \<noteq> []"
    by auto
  then have "\<not> is_white_space (hd d)"
    unfolding d_def by (rule hd_dropWhile)
  moreover from d ne have "hd d = hd (rev e)"
    by (metis hd_append2 rev_is_Nil_conv)
  ultimately show ?thesis
    using l t by simp
qed

lemma replace_bearer_other:
  "take 7 h \<noteq> ''Bearer '' \<Longrightarrow> take 7 h \<noteq> ''bearer '' \<Longrightarrow> replace_bearer h = h"
  by (simp add: replace_bearer_def)

lemma authenticateJWT_raw_token:
  assumes "authorization_header req1 = Some t"
    and "authorization_header req2 = Some (p @ t)"
    and "p = ''Bearer '' \<or> p = ''bearer ''"
    and "t = [] \<longrightarrow> (\<exists>err. jwt_verify [] SECRET_KEY = Inl err)"
    and "take 7 t \<noteq> ''Bearer ''" and "take 7 t \<noteq> ''bearer ''"
  shows "authenticateJWT jwt_verify SECRET_KEY req1 loc =
    authenticateJWT jwt_verify SECRET_KEY req2 loc"
proof -
  from assms have x: "extract_token (p @ t) = extract_token t"
    by (auto simp: extract_token_def replace_bearer_def)
  from assms have ne: "p @ t \<noteq> []"
    by auto
  show ?thesis
  proof (cases "t = []")
    case True
    with assms obtain err where "jwt_verify [] SECRET_KEY = Inl err"
      by blast
    moreover from True have "extract_token t = []"
      by (simp add: extract_token_def replace_bearer_def trim_def)
    ultimately show ?thesis
      using assms True x ne by (simp add: authenticateJWT_def)
  next
    case False
    with assms x ne show ?thesis
      by (simp add: authenticateJWT_def)
  qed
qed

text \<open>
  Claim C10. The token handed to the verifier is the authorization header without one
  leading \<open>Bearer \<close> or \<open>bearer \<close>, trimmed: a header that starts with neither is
  only trimmed, as \<open>BEARER abc\<close> shows, and a second prefix stays. The token is the
  stripped header without the white space around it. So a raw token that does not start
  with the prefix is treated as the same token behind the prefix is; for the empty
  string, which counts as no header at all, this rests on the verifier rejecting it.
\<close>

theorem bearer_prefix_stripped_once:
  "extract_token (''Bearer '' @ t) = trim t \<and>
   extract_token (''bearer '' @ t) = trim t \<and>
   (take 7 h \<noteq> ''Bearer '' \<and> take 7 h \<noteq> ''bearer '' \<longrightarrow> extract_token h = trim h) \<and>
   extract_token ''BEARER abc'' = ''BEARER abc'' \<and>
   extract_token ''Bearer Bearer abc'' = ''Bearer abc'' \<and>
   (\<exists>pre post. replace_bearer h = pre @ extract_token h @ post \<and>
      (\<forall>c \<in> set pre. is_white_space c) \<and> (\<forall>c \<in> set post. is_white_space c)) \<and>
   (extract_token h \<noteq> [] \<longrightarrow>
      \<not> is_white_space (hd (extract_token h)) \<and> \<not> is_white_space (last (extract_token h))) \<and>
   (authorization_header req1 = Some t \<and>
    (authorization_header req2 = Some (''Bearer '' @ t) \<or>
     authorization_header req2 = Some (''bearer '' @ t)) \<and>
    (t = [] \<longrightarrow> (\<exists>err. jwt_verify [] SECRET_KEY = Inl err)) \<and>
    take 7 t \<noteq> ''Bearer '' \<and> take 7 t \<noteq> ''bearer '' \<longrightarrow>
      authenticateJWT jwt_verify SECRET_KEY req1 loc =
      authenticateJWT jwt_verify SECRET_KEY req2 loc)"
proof -
  have a: "extract_token (''Bearer '' @ t) = trim t" "extract_token (''bearer '' @ t) = trim t"
    by (simp_all add: extract_token_def replace_bearer_def)
  have b: "take 7 h \<noteq> ''Bearer '' \<and> take 7 h \<noteq> ''bearer '' \<longrightarrow> extract_token h = trim h"
    by (simp add: extract_token_def replace_bearer_other)
  have c: "extract_token ''BEARER abc'' = ''BEARER abc''"
    by (simp add: extract_token_def replace_bearer_def trim_def is_white_space_def)
  have d: "extract_token ''Bearer Bearer abc'' = ''Bearer abc''"
    by (simp add: extract_token_def replace_bearer_def trim_def is_white_space_def)
  have e: "\<exists>pre post. replace_bearer h = pre @ extract_token h @ post \<and>
      (\<forall>c \<in> set pre. is_white_space c) \<and> (\<forall>c \<in> set post. is_white_space c)"
    unfolding extract_token_def by (rule trim_decomp)
  have f: "extract_token h \<noteq> [] \<longrightarrow>
      \<not> is_white_space (hd (extract_token h)) \<and> \<not> is_white_space (last (extract_token h))"
    unfolding extract_token_def by (simp add: trim_ends)
  have g: "authorization_header req1 = Some t \<and>
    (authorization_header req2 = Some (''Bearer '' @ t) \<or>
     authorization_header req2 = Some (''bearer '' @ t)) \<and>
    (t = [] \<longrightarrow> (\<exists>err. jwt_verify [] SECRET_KEY = Inl err)) \<and>
    take 7 t \<noteq> ''Bearer '' \<and> take 7 t \<noteq> ''bearer '' \<longrightarrow>
      authenticateJWT jwt_verify SECRET_KEY req1 loc =
      authenticateJWT jwt_verify SECRET_KEY req2 loc"
    using authenticateJWT_raw_token [of req1 t req2 "''Bearer ''"]
      authenticateJWT_raw_token [of req1 t req2 "''bearer ''"]
    by blast
  from a b c d e f g show ?thesis
    by blast
qed

theorem bearer_prefix_stripped_once_witness:
  "take 7 ''BEARER tok'' \<noteq> ''Bearer '' \<and> take 7 ''BEARER tok'' \<noteq> ''bearer '' \<and>
   extract_token ''BEARER tok'' = ''BEARER tok'' \<and>
   extract_token ''Bearer  tok '' = ''tok'' \<and>
   authenticateJWT sample_verify ''secret'' (sample_request (Some ''tok'') None) \<lparr>user = None\<rparr> =
     authenticateJWT sample_verify ''secret'' (sample_request (Some ''Bearer tok'') None)
       \<lparr>user = None\<rparr> \<and>
   authenticateJWT sample_verify ''secret'' (sample_request (Some ''tok'') None) \<lparr>user = None\<rparr> =
     (\<lparr>user = Some \<lparr>username = ''u1'', isAdmin = False\<rparr>\<rparr>, Next)"
  using
    bearer_prefix_stripped_once [of "''tok''" "''BEARER tok''"
      "sample_request (Some ''tok'') None" "sample_request (Some ''Bearer tok'') None"
      sample_verify "''secret''" "\<lparr>user = None\<rparr>"]
    bearer_prefix_stripped_once [of "'' tok ''"]
  by (simp add: authorization_header_def sample_request_def sample_verify_def extract_token_def
      replace_bearer_def trim_def is_white_space_def authenticateJWT_def)

end
